theory Spec2Isabelle
  imports Main "HOL-Library.Word"
begin

unbundle bit_operations_syntax

section \<open>Interrupt causes (execution.h, enum InterruptFlag)\<close>

text \<open>
  The enumeration of execution.h, lines 14 to 25. Each enumerator is written in the
  source as a shift of the C++ \<open>int\<close> constant 1; \<open>flag_value\<close> keeps that form.
  A C++ \<open>int\<close> is a 32-bit word here.
\<close>

datatype InterruptFlag =
    INTERRUPT
  | DEBUGBREAK
  | DEBUGCOMMAND
  | PREEMPT
  | TERMINATE
  | GC_REQUEST
  | FULL_DEOPT
  | INSTALL_CODE
  | API_INTERRUPT
  | DEOPT_MARKED_ALLOCATION_SITES

fun flag_value :: "InterruptFlag \<Rightarrow> 32 word" where
  "flag_value INTERRUPT = push_bit 0 1"
| "flag_value DEBUGBREAK = push_bit 1 1"
| "flag_value DEBUGCOMMAND = push_bit 2 1"
| "flag_value PREEMPT = push_bit 3 1"
| "flag_value TERMINATE = push_bit 4 1"
| "flag_value GC_REQUEST = push_bit 5 1"
| "flag_value FULL_DEOPT = push_bit 6 1"
| "flag_value INSTALL_CODE = push_bit 7 1"
| "flag_value API_INTERRUPT = push_bit 8 1"
| "flag_value DEOPT_MARKED_ALLOCATION_SITES = push_bit 9 1"

text \<open>The enumerators in the order of their declaration, and the shift of each.\<close>

definition all_flags :: "InterruptFlag list" where
  "all_flags = [INTERRUPT, DEBUGBREAK, DEBUGCOMMAND, PREEMPT, TERMINATE, GC_REQUEST,
     FULL_DEOPT, INSTALL_CODE, API_INTERRUPT, DEOPT_MARKED_ALLOCATION_SITES]"

fun flag_bit :: "InterruptFlag \<Rightarrow> nat" where
  "flag_bit INTERRUPT = 0"
| "flag_bit DEBUGBREAK = 1"
| "flag_bit DEBUGCOMMAND = 2"
| "flag_bit PREEMPT = 3"
| "flag_bit TERMINATE = 4"
| "flag_bit GC_REQUEST = 5"
| "flag_bit FULL_DEOPT = 6"
| "flag_bit INSTALL_CODE = 7"
| "flag_bit API_INTERRUPT = 8"
| "flag_bit DEOPT_MARKED_ALLOCATION_SITES = 9"

text \<open>
  A set of causes held in one \<open>int\<close>, as \<open>interrupt_flags_\<close> holds it: the bitwise
  or of the members' flags.
\<close>

definition flags_of :: "InterruptFlag list \<Rightarrow> 32 word" where
  "flags_of cs = fold (\<lambda>c w. w OR flag_value c) cs 0"

section \<open>The stack guard's per-thread record (execution.h, StackGuard::ThreadLocal)\<close>

text \<open>
  \<open>uintptr_t\<close> is a word of the target's pointer width \<open>'a\<close> (64 bits where the source
  selects \<open>V8_TARGET_ARCH_X64 || V8_TARGET_ARCH_ARM64\<close>, 32 bits otherwise); the three
  \<open>int\<close> fields are 32-bit words read as signed; the callback (a function pointer) and
  its data pointer are addresses. The fields keep the source's names without the
  trailing underscore, and the selectors \<open>climit\<close>, \<open>real_climit\<close>, \<open>jslimit\<close> and
  \<open>real_jslimit\<close> are at the same time the accessors of lines 207 to 218.
\<close>

record (overloaded) 'a ThreadLocal =
  real_jslimit :: "'a word"
  jslimit :: "'a word"
  real_climit :: "'a word"
  climit :: "'a word"
  nesting :: "32 word"
  postpone_interrupts_nesting :: "32 word"
  interrupt_flags :: "32 word"
  interrupt_callback :: "'a word"
  interrupt_callback_data :: "'a word"

text \<open>
  Lines 254 to 260: \<open>0xfffffffffffffffe\<close> and \<open>0xfffffffffffffff8\<close> on the 64-bit
  targets, \<open>0xfffffffe\<close> and \<open>0xfffffff8\<close> on the others. At either width these are
  the words \<open>- 2\<close> and \<open>- 8\<close> (lemmas \<open>kInterruptLimit_64\<close> to \<open>kIllegalLimit_32\<close>).
\<close>

definition kInterruptLimit :: "'a::len word" where
  "kInterruptLimit = - 2"

definition kIllegalLimit :: "'a::len word" where
  "kIllegalLimit = - 8"

text \<open>Line 239: \<open>return thread_local_.postpone_interrupts_nesting_ > 0;\<close>\<close>

definition should_postpone_interrupts :: "('a::len) ThreadLocal \<Rightarrow> bool" where
  "should_postpone_interrupts s = (0 <s postpone_interrupts_nesting s)"

text \<open>
  \<open>ASSERT\<close> is a macro of checks.h, which is not among the sources: it is taken as
  checking in a debug build (\<open>dbg\<close>) and as compiled out otherwise.
\<close>

datatype error = AssertionFailed | StackOverflow

definition ASSERT :: "bool \<Rightarrow> bool \<Rightarrow> error + unit" where
  "ASSERT dbg c = (if dbg \<and> \<not> c then Inl AssertionFailed else Inr ())"

text \<open>
  Lines 231 to 236:
  \<^verbatim>\<open>ASSERT(!should_postpone_interrupts(lock)); return thread_local_.interrupt_flags_ != 0;\<close>
\<close>

definition has_pending_interrupts :: "bool \<Rightarrow> ('a::len) ThreadLocal \<Rightarrow> error + bool" where
  "has_pending_interrupts dbg s =
     (case ASSERT dbg (\<not> should_postpone_interrupts s) of
        Inl e \<Rightarrow> Inl e
      | Inr _ \<Rightarrow> Inr (interrupt_flags s \<noteq> 0))"

section \<open>Operations of the guard whose bodies are not among the sources\<close>

text \<open>
  execution.h declares the operations of this section and gives no body for them.
  Each definition follows the specification's section 4.4 and uses the constants,
  fields and predicates above, which are the source's.
\<close>

text \<open>
  Modelled from the spec: the body of \<open>set_interrupt_limits\<close> (declared at line 244) is
  missing. "if \<open>postpone_depth == 0\<close>, also lowers \<open>js_limit\<close>/\<open>native_limit\<close> to the
  sentinel value [...] If \<open>postpone_depth > 0\<close>, only the bit is set: limits are left
  untouched". The sentinel is \<open>kInterruptLimit\<close>.
\<close>

definition set_interrupt_limits :: "('a::len) ThreadLocal \<Rightarrow> 'a ThreadLocal" where
  "set_interrupt_limits s =
     (if should_postpone_interrupts s then s
      else s\<lparr>jslimit := kInterruptLimit, climit := kInterruptLimit\<rparr>)"

text \<open>
  Modelled from the spec: the body of \<open>reset_limits\<close> (declared at line 248, "Reset limits
  to actual values") is missing. "restores \<open>js_limit = real_js_limit\<close>,
  \<open>native_limit = real_native_limit\<close>".
\<close>

definition reset_limits :: "('a::len) ThreadLocal \<Rightarrow> 'a ThreadLocal" where
  "reset_limits s = s\<lparr>jslimit := real_jslimit s, climit := real_climit s\<rparr>"

text \<open>
  Modelled from the spec: the bodies of the request operations (\<open>Interrupt\<close>, \<open>Preempt\<close>,
  \<open>TerminateExecution\<close>, \<open>DebugBreak\<close>, \<open>DebugCommand\<close>, \<open>RequestGC\<close>,
  \<open>RequestInstallCode\<close>, \<open>FullDeopt\<close>, \<open>DeoptMarkedAllocationSites\<close>, lines 176 to
  196) are missing. \<open>RequestInterrupt(cause)\<close>: "sets the bit for \<open>cause\<close> in
  \<open>pending_causes\<close>; if \<open>postpone_depth == 0\<close>, also lowers \<open>js_limit\<close>/\<open>native_limit\<close>
  to the sentinel value".
\<close>

definition RequestInterrupt :: "InterruptFlag \<Rightarrow> ('a::len) ThreadLocal \<Rightarrow> 'a ThreadLocal" where
  "RequestInterrupt cause s =
     set_interrupt_limits (s\<lparr>interrupt_flags := interrupt_flags s OR flag_value cause\<rparr>)"

text \<open>
  Modelled from the spec: the body of \<open>Continue(InterruptFlag after_what)\<close> (line 197),
  the specification's \<open>ClearInterrupt(cause)\<close>, is missing. "clears the bit; if no bits
  remain set, restores \<open>js_limit = real_js_limit\<close>, \<open>native_limit = real_native_limit\<close>".
\<close>

definition Continue :: "InterruptFlag \<Rightarrow> ('a::len) ThreadLocal \<Rightarrow> 'a ThreadLocal" where
  "Continue after_what s =
     (let s' = s\<lparr>interrupt_flags := interrupt_flags s AND NOT (flag_value after_what)\<rparr>
      in if interrupt_flags s' = 0 then reset_limits s' else s')"

text \<open>
  Modelled from the spec: the class \<open>PostponeInterruptsScope\<close> (a friend, line 301) is
  missing; this is its constructor. "\<open>PostponeScope\<close> enter/exit: increments/decrements
  \<open>postpone_depth\<close>".
\<close>

definition PostponeInterruptsScope_enter :: "('a::len) ThreadLocal \<Rightarrow> 'a ThreadLocal" where
  "PostponeInterruptsScope_enter s =
     s\<lparr>postpone_interrupts_nesting := postpone_interrupts_nesting s + 1\<rparr>"

text \<open>
  Modelled from the spec: the destructor of the missing class \<open>PostponeInterruptsScope\<close>.
  "decrements \<open>postpone_depth\<close>. On exit to zero with a non-empty \<open>pending_causes\<close>,
  re-applies the sentinel lowering so the next stack check still traps".
\<close>

definition PostponeInterruptsScope_exit :: "('a::len) ThreadLocal \<Rightarrow> 'a ThreadLocal" where
  "PostponeInterruptsScope_exit s =
     (let s' = s\<lparr>postpone_interrupts_nesting := postpone_interrupts_nesting s - 1\<rparr>
      in if postpone_interrupts_nesting s' = 0 \<and> interrupt_flags s' \<noteq> 0
         then s'\<lparr>jslimit := kInterruptLimit, climit := kInterruptLimit\<rparr>
         else s')"

text \<open>
  Modelled from the spec: the body of \<open>SetStackLimit\<close> (line 161) is missing. "sets
  \<open>real_js_limit\<close>/\<open>real_native_limit\<close> from a caller-supplied [...] address [...]; if
  no interrupt is currently pending, also mirrors into the effective limit pair".
\<close>

definition SetStackLimit :: "'a word \<Rightarrow> ('a::len) ThreadLocal \<Rightarrow> 'a ThreadLocal" where
  "SetStackLimit limit s =
     (let s' = s\<lparr>real_jslimit := limit, real_climit := limit\<rparr>
      in if interrupt_flags s = 0 then s'\<lparr>jslimit := limit, climit := limit\<rparr> else s')"

text \<open>
  Modelled from the spec: the body of \<open>RequestInterrupt(InterruptCallback callback,
  void* data)\<close> (line 199) is missing. "stores the callback/data pair and raises the
  \<open>api-interrupt\<close> cause".
\<close>

definition RequestInterrupt_callback ::
  "'a word \<Rightarrow> 'a word \<Rightarrow> ('a::len) ThreadLocal \<Rightarrow> 'a ThreadLocal" where
  "RequestInterrupt_callback callback data s =
     RequestInterrupt API_INTERRUPT
       (s\<lparr>interrupt_callback := callback, interrupt_callback_data := data\<rparr>)"

text \<open>
  Modelled from the spec: the body of \<open>StackGuard::IsStackOverflow\<close> (declared at line
  175) is missing. "a genuine stack overflow (current stack pointer below
  \<open>real_js_limit\<close>/\<open>real_native_limit\<close>) versus an interrupt masquerading as overflow
  (pointer still within real bounds [...])". The current stack pointer is the argument
  \<open>sp\<close>.
\<close>

definition IsStackOverflow :: "'a word \<Rightarrow> ('a::len) ThreadLocal \<Rightarrow> bool" where
  "IsStackOverflow sp s = (sp < real_jslimit s \<or> sp < real_climit s)"

text \<open>
  Modelled from the spec: the body of \<open>Execution::HandleStackGuardInterrupt\<close> (declared
  at line 128), the specification's \<open>HandleInterrupt()\<close>, is missing. "Genuine overflow
  is reported as a distinct, higher-priority failure (stack-overflow exception)
  independent of the interrupt bitset. Otherwise, it drains \<open>pending_causes\<close> bit by
  bit, [...] clearing each bit as handled, and finally restores real limits once the
  bitset is empty". What the handlers of the causes do outside the guard's record is not
  part of the model.
\<close>

definition HandleStackGuardInterrupt ::
  "'a word \<Rightarrow> ('a::len) ThreadLocal \<Rightarrow> error + 'a ThreadLocal" where
  "HandleStackGuardInterrupt sp s =
     (if IsStackOverflow sp s then Inl StackOverflow
      else Inr (fold Continue all_flags s))"

text \<open>
  The operations as data (\<open>'p\<close> is the type of addresses, a \<open>uintptr_t\<close> word below),
  and a run of them from a given record. A trapped stack check that is a genuine
  overflow leaves the record as it is.
\<close>

datatype 'p guard_op =
    Request InterruptFlag
  | RequestCallback 'p 'p
  | Clear InterruptFlag
  | EnterPostpone
  | ExitPostpone
  | SetLimit 'p
  | Handle 'p

fun apply_op :: "('a::len) word guard_op \<Rightarrow> 'a ThreadLocal \<Rightarrow> 'a ThreadLocal" where
  "apply_op (Request c) s = RequestInterrupt c s"
| "apply_op (RequestCallback cb d) s = RequestInterrupt_callback cb d s"
| "apply_op (Clear c) s = Continue c s"
| "apply_op EnterPostpone s = PostponeInterruptsScope_enter s"
| "apply_op ExitPostpone s = PostponeInterruptsScope_exit s"
| "apply_op (SetLimit a) s = SetStackLimit a s"
| "apply_op (Handle sp) s =
     (case HandleStackGuardInterrupt sp s of Inl _ \<Rightarrow> s | Inr s' \<Rightarrow> s')"

definition run :: "('a::len) word guard_op list \<Rightarrow> 'a ThreadLocal \<Rightarrow> 'a ThreadLocal" where
  "run ops s = fold apply_op ops s"

text \<open>Whether an operation may clear the bit of cause \<open>c\<close>.\<close>

fun clears :: "InterruptFlag \<Rightarrow> 'p guard_op \<Rightarrow> bool" where
  "clears c (Clear d) = (c = d)"
| "clears c (Handle sp) = True"
| "clears c _ = False"

text \<open>
  The effective limits agree with the real ones when no cause is pending.
\<close>

definition limits_restored :: "('a::len) ThreadLocal \<Rightarrow> bool" where
  "limits_restored s =
     (interrupt_flags s = 0 \<longrightarrow> jslimit s = real_jslimit s \<and> climit s = real_climit s)"

text \<open>The bit of cause \<open>c\<close> is set in \<open>interrupt_flags_\<close>.\<close>

definition is_pending :: "InterruptFlag \<Rightarrow> ('a::len) ThreadLocal \<Rightarrow> bool" where
  "is_pending c s = (interrupt_flags s AND flag_value c = flag_value c)"




section \<open>LockGuard (platform/mutex.h)\<close>

text \<open>
  Lines 228 to 238. The guard holds a pointer to its mutex; the constructor calls
  \<open>mutex_->Lock()\<close> and the destructor \<open>mutex_->Unlock()\<close>. The class is a template
  over the mutex type, whose \<open>Lock\<close> and \<open>Unlock\<close> are defined elsewhere: a call is
  recorded as an event on the mutex \<open>'m\<close> it is made on, in the order of the calls.
  The field \<open>mutex\<close> is the source's \<open>mutex_\<close>.
\<close>

datatype 'm lock_event = Lock 'm | Unlock 'm

record 'm LockGuard =
  mutex :: 'm

definition LockGuard_ctor :: "'m \<Rightarrow> 'm lock_event list \<Rightarrow> 'm LockGuard \<times> 'm lock_event list" where
  "LockGuard_ctor m tr = (\<lparr>mutex = m\<rparr>, tr @ [Lock m])"

definition LockGuard_dtor :: "'m LockGuard \<Rightarrow> 'm lock_event list \<Rightarrow> 'm lock_event list" where
  "LockGuard_dtor g tr = tr @ [Unlock (mutex g)]"

text \<open>
  The scope a guard lives in, as C++ runs it: a block that declares a guard first runs
  the constructor, then its body, and runs the destructor however control leaves the
  body (falling off its end, a \<open>return\<close>, or an exception passing through). A sequence
  stops at the first statement that does not complete normally. The class is not
  copyable (\<open>DISALLOW_COPY_AND_ASSIGN\<close>), so a guard is destroyed once.
\<close>

datatype exit = Normal | Returned | Raised

datatype 'm stmt =
    Skip
  | Do "'m lock_event"
  | Seq "'m stmt" "'m stmt"
  | Return
  | Throw
  | Guarded 'm "'m stmt"

fun exec :: "'m stmt \<Rightarrow> 'm lock_event list \<Rightarrow> exit \<times> 'm lock_event list" where
  "exec Skip tr = (Normal, tr)"
| "exec (Do e) tr = (Normal, tr @ [e])"
| "exec (Seq a b) tr =
     (case exec a tr of (Normal, tr') \<Rightarrow> exec b tr' | (how, tr') \<Rightarrow> (how, tr'))"
| "exec Return tr = (Returned, tr)"
| "exec Throw tr = (Raised, tr)"
| "exec (Guarded m body) tr =
     (case LockGuard_ctor m tr of
        (g, tr1) \<Rightarrow> (case exec body tr1 of (how, tr2) \<Rightarrow> (how, LockGuard_dtor g tr2)))"

text \<open>Whether a statement makes a call on mutex \<open>m\<close>, directly or through a guard.\<close>

fun touches :: "'m \<Rightarrow> 'm stmt \<Rightarrow> bool" where
  "touches m Skip = False"
| "touches m (Do e) = (e = Lock m \<or> e = Unlock m)"
| "touches m (Seq a b) = (touches m a \<or> touches m b)"
| "touches m Return = False"
| "touches m Throw = False"
| "touches m (Guarded n body) = (n = m \<or> touches m body)"

text \<open>
  A concrete record for the worked instances below: a 64-bit guard whose stack limit is
  \<open>0x7fff0000\<close>, with no pending cause, no postponement and no callback.
\<close>

definition idle_guard :: "64 ThreadLocal" where
  "idle_guard = \<lparr> real_jslimit = 0x7fff0000, jslimit = 0x7fff0000,
     real_climit = 0x7fff0000, climit = 0x7fff0000,
     nesting = 0, postpone_interrupts_nesting = 0, interrupt_flags = 0,
     interrupt_callback = 0, interrupt_callback_data = 0 \<rparr>"



section \<open>Facts about the constants and the flags\<close>

lemma kInterruptLimit_64: "(kInterruptLimit :: 64 word) = 0xfffffffffffffffe"
  by (simp add: kInterruptLimit_def)

lemma kInterruptLimit_32: "(kInterruptLimit :: 32 word) = 0xfffffffe"
  by (simp add: kInterruptLimit_def)

lemma kIllegalLimit_64: "(kIllegalLimit :: 64 word) = 0xfffffffffffffff8"
  by (simp add: kIllegalLimit_def)

lemma kIllegalLimit_32: "(kIllegalLimit :: 32 word) = 0xfffffff8"
  by (simp add: kIllegalLimit_def)

lemma flag_value_shift: "flag_value c = push_bit (flag_bit c) 1"
  by (cases c) simp_all

lemma flag_value_nonzero: "flag_value c \<noteq> 0"
  by (cases c) simp_all

lemma flag_value_and: "flag_value c AND flag_value d = (if c = d then flag_value c else 0)"
  by (cases c; cases d) simp_all

lemma flags_of_Nil: "flags_of [] = 0"
  by (simp add: flags_of_def)

lemma fold_or_start: "fold (\<lambda>c w. w OR flag_value c) cs w = w OR flags_of cs"
proof (induction cs arbitrary: w)
  case Nil
  show ?case by (simp add: flags_of_def)
next
  case (Cons c cs)
  have "fold (\<lambda>c w. w OR flag_value c) (c # cs) w = (w OR flag_value c) OR flags_of cs"
    using Cons.IH [of "w OR flag_value c"] by simp
  moreover have "flags_of (c # cs) = flag_value c OR flags_of cs"
    using Cons.IH [of "0 OR flag_value c"] by (simp add: flags_of_def)
  ultimately show ?case by (simp add: or.assoc)
qed

lemma flags_of_Cons: "flags_of (c # cs) = flag_value c OR flags_of cs"
  using fold_or_start [of "c # cs" 0] fold_or_start [of cs "flag_value c"]
  by (simp add: flags_of_def)

lemma flags_of_member: "(flags_of cs AND flag_value c \<noteq> 0) = (c \<in> set cs)"
proof (induction cs)
  case Nil
  show ?case by (simp add: flags_of_Nil)
next
  case (Cons d cs)
  have "flags_of (d # cs) AND flag_value c
      = (flag_value d AND flag_value c) OR (flags_of cs AND flag_value c)"
    by (simp add: flags_of_Cons bit.conj_disj_distrib2)
  then show ?case
    using Cons.IH by (auto simp: flag_value_and flag_value_nonzero)
qed


lemma and_not_disjoint:
  fixes a b :: "'a::len word"
  assumes "a AND b = 0"
  shows "a AND NOT b = a"
proof -
  have "a = a AND (b OR NOT b)" by simp
  also have "\<dots> = (a AND b) OR (a AND NOT b)" by (simp only: bit.conj_disj_distrib)
  also have "\<dots> = a AND NOT b" using assms by simp
  finally show ?thesis by simp
qed



section \<open>Facts about the guard's operations\<close>

lemma limits_restored_set_interrupt_limits:
  "interrupt_flags s \<noteq> 0 \<Longrightarrow> limits_restored (set_interrupt_limits s)"
  by (simp add: limits_restored_def set_interrupt_limits_def)

lemma limits_restored_RequestInterrupt: "limits_restored (RequestInterrupt c s)"
  by (simp add: limits_restored_def RequestInterrupt_def set_interrupt_limits_def
      flag_value_nonzero or_eq_0_iff)

lemma limits_restored_Continue: "limits_restored (Continue c s)"
  by (simp add: limits_restored_def Continue_def reset_limits_def Let_def)

lemma limits_restored_enter:
  "limits_restored s \<Longrightarrow> limits_restored (PostponeInterruptsScope_enter s)"
  by (simp add: limits_restored_def PostponeInterruptsScope_enter_def)

lemma limits_restored_exit:
  "limits_restored s \<Longrightarrow> limits_restored (PostponeInterruptsScope_exit s)"
  by (simp add: limits_restored_def PostponeInterruptsScope_exit_def Let_def)

lemma limits_restored_SetStackLimit: "limits_restored (SetStackLimit a s)"
  by (simp add: limits_restored_def SetStackLimit_def Let_def)

lemma limits_restored_fold_Continue:
  "limits_restored s \<Longrightarrow> limits_restored (fold Continue cs s)"
  by (induction cs arbitrary: s) (simp_all add: limits_restored_Continue)

lemma limits_restored_apply_op:
  "limits_restored s \<Longrightarrow> limits_restored (apply_op op s)"
  by (cases op)
     (simp_all add: limits_restored_RequestInterrupt limits_restored_Continue
        limits_restored_enter limits_restored_exit limits_restored_SetStackLimit
        RequestInterrupt_callback_def HandleStackGuardInterrupt_def
        limits_restored_fold_Continue)

lemma limits_restored_run: "limits_restored s \<Longrightarrow> limits_restored (run ops s)"
  unfolding run_def
  by (induction ops arbitrary: s) (simp_all add: limits_restored_apply_op)

lemma idle_guard_limits_restored: "limits_restored idle_guard"
  by (simp add: limits_restored_def idle_guard_def)





lemma nesting_one_is_positive: "(0 :: 32 word) <s 1"
  by (simp add: word_sless_alt)

lemma RequestInterrupt_flags:
  "interrupt_flags (RequestInterrupt c s) = interrupt_flags s OR flag_value c"
  by (simp add: RequestInterrupt_def set_interrupt_limits_def)

lemma RequestInterrupt_nesting:
  "postpone_interrupts_nesting (RequestInterrupt c s) = postpone_interrupts_nesting s"
  by (simp add: RequestInterrupt_def set_interrupt_limits_def)

lemma RequestInterrupt_postponed:
  "should_postpone_interrupts s \<Longrightarrow>
     jslimit (RequestInterrupt c s) = jslimit s \<and> climit (RequestInterrupt c s) = climit s"
  by (simp add: RequestInterrupt_def set_interrupt_limits_def should_postpone_interrupts_def)

lemma RequestInterrupt_callback_postponed:
  "should_postpone_interrupts s \<Longrightarrow>
     interrupt_flags (RequestInterrupt_callback cb d s)
       = interrupt_flags s OR flag_value API_INTERRUPT
   \<and> jslimit (RequestInterrupt_callback cb d s) = jslimit s
   \<and> climit (RequestInterrupt_callback cb d s) = climit s"
  by (simp add: RequestInterrupt_callback_def RequestInterrupt_def set_interrupt_limits_def
      should_postpone_interrupts_def)

lemma exit_to_zero:
  "postpone_interrupts_nesting s = 1 \<Longrightarrow> interrupt_flags s \<noteq> 0 \<Longrightarrow>
     postpone_interrupts_nesting (PostponeInterruptsScope_exit s) = 0
   \<and> interrupt_flags (PostponeInterruptsScope_exit s) = interrupt_flags s
   \<and> jslimit (PostponeInterruptsScope_exit s) = kInterruptLimit
   \<and> climit (PostponeInterruptsScope_exit s) = kInterruptLimit"
  by (simp add: PostponeInterruptsScope_exit_def Let_def)

lemma fold_RequestInterrupt_postponed:
  "should_postpone_interrupts s \<Longrightarrow>
     interrupt_flags (fold RequestInterrupt cs s) = interrupt_flags s OR flags_of cs
   \<and> postpone_interrupts_nesting (fold RequestInterrupt cs s) = postpone_interrupts_nesting s
   \<and> jslimit (fold RequestInterrupt cs s) = jslimit s
   \<and> climit (fold RequestInterrupt cs s) = climit s"
proof (induction cs arbitrary: s)
  case Nil
  show ?case by (simp add: flags_of_Nil)
next
  case (Cons c cs)
  have p: "should_postpone_interrupts (RequestInterrupt c s)"
    using Cons.prems by (simp add: should_postpone_interrupts_def RequestInterrupt_nesting)
  show ?case
    using Cons.IH [OF p] RequestInterrupt_postponed [OF Cons.prems, of c]
    by (simp add: RequestInterrupt_flags RequestInterrupt_nesting flags_of_Cons or.assoc)
qed

lemma flags_of_nonzero: "cs \<noteq> [] \<Longrightarrow> flags_of cs \<noteq> 0"
  by (cases cs) (simp_all add: flags_of_Cons or_eq_0_iff flag_value_nonzero)

lemma postponed_scope:
  assumes z: "postpone_interrupts_nesting s = 0" and ne: "cs \<noteq> []"
  shows "interrupt_flags (PostponeInterruptsScope_exit
             (fold RequestInterrupt cs (PostponeInterruptsScope_enter s)))
           = interrupt_flags s OR flags_of cs
       \<and> jslimit (fold RequestInterrupt cs (PostponeInterruptsScope_enter s)) = jslimit s
       \<and> climit (fold RequestInterrupt cs (PostponeInterruptsScope_enter s)) = climit s
       \<and> jslimit (PostponeInterruptsScope_exit
             (fold RequestInterrupt cs (PostponeInterruptsScope_enter s))) = kInterruptLimit
       \<and> climit (PostponeInterruptsScope_exit
             (fold RequestInterrupt cs (PostponeInterruptsScope_enter s))) = kInterruptLimit"
proof -
  let ?e = "PostponeInterruptsScope_enter s"
  let ?m = "fold RequestInterrupt cs ?e"
  have e: "postpone_interrupts_nesting ?e = 1" "interrupt_flags ?e = interrupt_flags s"
      "jslimit ?e = jslimit s" "climit ?e = climit s"
    using z by (simp_all add: PostponeInterruptsScope_enter_def)
  then have p: "should_postpone_interrupts ?e"
    by (simp add: should_postpone_interrupts_def nesting_one_is_positive)
  note m = fold_RequestInterrupt_postponed [OF p, of cs]
  have one: "postpone_interrupts_nesting ?m = 1" using m e by simp
  have nz: "interrupt_flags ?m \<noteq> 0"
    using m flags_of_nonzero [OF ne] by (simp add: or_eq_0_iff)
  show ?thesis
    using exit_to_zero [OF one nz] m e by simp
qed

lemma is_pending_RequestInterrupt: "is_pending c (RequestInterrupt c s)"
  by (simp add: is_pending_def RequestInterrupt_flags bit.conj_disj_distrib2)

lemma or_and_absorb: "w OR (w AND f) = (w :: 'a::len word)"
  by (rule bit_eqI) (auto simp: bit_or_iff bit_and_iff)

lemma is_pending_absorbs:
  assumes "is_pending c s"
  shows "interrupt_flags s OR flag_value c = interrupt_flags s"
proof -
  have "interrupt_flags s OR flag_value c
      = interrupt_flags s OR (interrupt_flags s AND flag_value c)"
    using assms by (simp add: is_pending_def)
  then show ?thesis by (simp only: or_and_absorb)
qed

lemma Continue_flags:
  "interrupt_flags (Continue d s) = interrupt_flags s AND NOT (flag_value d)"
  by (simp add: Continue_def reset_limits_def Let_def)

lemma exit_flags: "interrupt_flags (PostponeInterruptsScope_exit s) = interrupt_flags s"
  by (simp add: PostponeInterruptsScope_exit_def Let_def)

lemma SetStackLimit_flags: "interrupt_flags (SetStackLimit a s) = interrupt_flags s"
  by (simp add: SetStackLimit_def Let_def)

lemma is_pending_keeps_RequestInterrupt:
  "is_pending c s \<Longrightarrow> is_pending c (RequestInterrupt d s)"
  by (simp add: is_pending_def RequestInterrupt_flags bit.conj_disj_distrib2 flag_value_and)

lemma is_pending_keeps_Continue:
  assumes "is_pending c s" and "c \<noteq> d"
  shows "is_pending c (Continue d s)"
proof -
  have "flag_value c AND flag_value d = 0" using assms(2) by (simp add: flag_value_and)
  then have "flag_value c AND NOT (flag_value d) = flag_value c" by (rule and_not_disjoint)
  then have "(interrupt_flags s AND NOT (flag_value d)) AND flag_value c = flag_value c"
    using assms(1) unfolding is_pending_def
    by (metis and.assoc and.commute)
  then show ?thesis
    by (simp add: is_pending_def Continue_flags)
qed

lemma is_pending_keeps_apply_op:
  "is_pending c s \<Longrightarrow> \<not> clears c op \<Longrightarrow> is_pending c (apply_op op s)"
proof (cases op)
  case (Request d)
  assume "is_pending c s"
  then show ?thesis using Request by (simp add: is_pending_keeps_RequestInterrupt)
next
  case (RequestCallback cb d)
  assume "is_pending c s"
  then have "is_pending c (s\<lparr>interrupt_callback := cb, interrupt_callback_data := d\<rparr>)"
    by (simp add: is_pending_def)
  then show ?thesis
    using RequestCallback
    by (simp add: RequestInterrupt_callback_def is_pending_keeps_RequestInterrupt)
next
  case (Clear d)
  assume "is_pending c s" "\<not> clears c op"
  then show ?thesis using Clear by (simp add: is_pending_keeps_Continue)
next
  case EnterPostpone
  assume "is_pending c s"
  then show ?thesis using EnterPostpone
    by (simp add: is_pending_def PostponeInterruptsScope_enter_def)
next
  case ExitPostpone
  assume "is_pending c s"
  then show ?thesis using ExitPostpone
    by (simp add: is_pending_def exit_flags)
next
  case (SetLimit a)
  assume "is_pending c s"
  then show ?thesis using SetLimit
    by (simp add: is_pending_def SetStackLimit_flags)
next
  case (Handle sp)
  assume "\<not> clears c op"
  then show ?thesis using Handle by simp
qed

lemma is_pending_keeps_run:
  "is_pending c s \<Longrightarrow> \<forall>op \<in> set ops. \<not> clears c op \<Longrightarrow> is_pending c (run ops s)"
  unfolding run_def
  by (induction ops arbitrary: s) (simp_all add: is_pending_keeps_apply_op)

lemma RequestInterrupt_twice: "RequestInterrupt c (RequestInterrupt c s) = RequestInterrupt c s"
  by (simp add: RequestInterrupt_def set_interrupt_limits_def should_postpone_interrupts_def
      or.assoc)















section \<open>Facts about a scope that holds a LockGuard\<close>

lemma exec_appends: "exec p tr = (fst (exec p []), tr @ snd (exec p []))"
proof (induction p arbitrary: tr)
  case (Seq a b)
  show ?case
    using Seq.IH(1) [of tr] Seq.IH(2) [of "tr @ snd (exec a [])"] Seq.IH(2) [of "snd (exec a [])"]
    by (cases "fst (exec a [])") (simp_all add: split_def)
next
  case (Guarded m body)
  show ?case
    using Guarded.IH [of "tr @ [Lock m]"] Guarded.IH [of "[Lock m]"]
    by (simp add: LockGuard_ctor_def LockGuard_dtor_def split_def)
qed simp_all

lemma untouched_counts:
  "\<not> touches m p \<Longrightarrow>
     count_list (snd (exec p [])) (Lock m) = 0 \<and> count_list (snd (exec p [])) (Unlock m) = 0"
proof (induction p)
  case (Seq a b)
  then show ?case
    using exec_appends [of b "snd (exec a [])"]
    by (cases "fst (exec a [])") (auto simp: split_def)
next
  case (Guarded n body)
  then show ?case
    using exec_appends [of body "[Lock n]"]
    by (auto simp: LockGuard_ctor_def LockGuard_dtor_def split_def)
qed auto

lemma guarded_exec:
  "exec (Guarded m body) tr
     = (fst (exec body []), tr @ [Lock m] @ snd (exec body []) @ [Unlock m])"
  using exec_appends [of body "tr @ [Lock m]"]
  by (simp add: LockGuard_ctor_def LockGuard_dtor_def split_def)

section \<open>The claims\<close>







text \<open>
  C3. While \<open>postpone_interrupts_nesting_ > 0\<close>, a request (of a cause, or of the API
  callback) sets its bit and leaves both effective limits as they are. When the count
  goes from one to zero with a cause pending, the pending causes are kept and both
  limits are set to the sentinel. So a scope entered at count zero, in which the causes
  \<open>cs\<close> are requested, ends with all of them pending and the sentinel in place.
\<close>

theorem postponed_requests_are_kept:
  "(should_postpone_interrupts s \<longrightarrow>
        interrupt_flags (RequestInterrupt c s) = interrupt_flags s OR flag_value c
      \<and> jslimit (RequestInterrupt c s) = jslimit s
      \<and> climit (RequestInterrupt c s) = climit s
      \<and> interrupt_flags (RequestInterrupt_callback cb d s)
          = interrupt_flags s OR flag_value API_INTERRUPT
      \<and> jslimit (RequestInterrupt_callback cb d s) = jslimit s
      \<and> climit (RequestInterrupt_callback cb d s) = climit s)
   \<and> (postpone_interrupts_nesting s = 1 \<and> interrupt_flags s \<noteq> 0 \<longrightarrow>
        postpone_interrupts_nesting (PostponeInterruptsScope_exit s) = 0
      \<and> interrupt_flags (PostponeInterruptsScope_exit s) = interrupt_flags s
      \<and> jslimit (PostponeInterruptsScope_exit s) = kInterruptLimit
      \<and> climit (PostponeInterruptsScope_exit s) = kInterruptLimit)
   \<and> (postpone_interrupts_nesting s = 0 \<and> cs \<noteq> [] \<longrightarrow>
        interrupt_flags (PostponeInterruptsScope_exit
             (fold RequestInterrupt cs (PostponeInterruptsScope_enter s)))
           = interrupt_flags s OR flags_of cs
      \<and> jslimit (fold RequestInterrupt cs (PostponeInterruptsScope_enter s)) = jslimit s
      \<and> climit (fold RequestInterrupt cs (PostponeInterruptsScope_enter s)) = climit s
      \<and> jslimit (PostponeInterruptsScope_exit
             (fold RequestInterrupt cs (PostponeInterruptsScope_enter s))) = kInterruptLimit
      \<and> climit (PostponeInterruptsScope_exit
             (fold RequestInterrupt cs (PostponeInterruptsScope_enter s))) = kInterruptLimit)"
  using RequestInterrupt_flags [of c s] RequestInterrupt_postponed [of s c]
    RequestInterrupt_callback_postponed [of s cb d] exit_to_zero [of s]
    postponed_scope [of s cs]
  by blast

theorem postponed_requests_are_kept_witness:
  "should_postpone_interrupts (PostponeInterruptsScope_enter idle_guard)
   \<and> interrupt_flags (RequestInterrupt TERMINATE (PostponeInterruptsScope_enter idle_guard))
       = 0x10
   \<and> jslimit (RequestInterrupt TERMINATE (PostponeInterruptsScope_enter idle_guard))
       = 0x7fff0000
   \<and> postpone_interrupts_nesting
         (RequestInterrupt TERMINATE (PostponeInterruptsScope_enter idle_guard)) = 1
   \<and> interrupt_flags (RequestInterrupt TERMINATE (PostponeInterruptsScope_enter idle_guard))
       \<noteq> 0
   \<and> jslimit (PostponeInterruptsScope_exit
         (RequestInterrupt TERMINATE (PostponeInterruptsScope_enter idle_guard)))
       = 0xfffffffffffffffe
   \<and> postpone_interrupts_nesting idle_guard = 0 \<and> [TERMINATE, GC_REQUEST] \<noteq> []
   \<and> interrupt_flags (PostponeInterruptsScope_exit
         (fold RequestInterrupt [TERMINATE, GC_REQUEST] (PostponeInterruptsScope_enter idle_guard)))
       = 0x30"
proof -
  let ?e = "PostponeInterruptsScope_enter idle_guard"
  have e: "should_postpone_interrupts ?e" "postpone_interrupts_nesting ?e = 1"
      "interrupt_flags ?e = 0" "jslimit ?e = 0x7fff0000" "postpone_interrupts_nesting idle_guard = 0"
      "interrupt_flags idle_guard = 0"
    by (simp_all add: should_postpone_interrupts_def PostponeInterruptsScope_enter_def
        idle_guard_def nesting_one_is_positive)
  have r: "postpone_interrupts_nesting (RequestInterrupt TERMINATE ?e) = 1"
      "interrupt_flags (RequestInterrupt TERMINATE ?e) = 0x10"
    using e by (simp_all add: RequestInterrupt_nesting RequestInterrupt_flags)
  show ?thesis
    using postponed_requests_are_kept [of ?e TERMINATE 0 0 "[]"]
      postponed_requests_are_kept [of "RequestInterrupt TERMINATE ?e" TERMINATE 0 0 "[]"]
      postponed_requests_are_kept [of idle_guard TERMINATE 0 0 "[TERMINATE, GC_REQUEST]"]
      e r
    by (simp add: kInterruptLimit_64 flags_of_Cons flags_of_Nil)
qed

text \<open>
  C4. Requesting a cause twice gives the same record as requesting it once; and after
  a request of \<open>c\<close> followed by any operations that do not clear \<open>c\<close>, a second request
  of \<open>c\<close> leaves the pending causes unchanged: a cause is a bit, not a count.
\<close>

theorem request_interrupt_idempotent:
  "RequestInterrupt c (RequestInterrupt c s) = RequestInterrupt c s
   \<and> ((\<forall>op \<in> set ops. \<not> clears c op) \<longrightarrow>
        interrupt_flags (RequestInterrupt c (run ops (RequestInterrupt c s)))
          = interrupt_flags (run ops (RequestInterrupt c s)))"
  using is_pending_absorbs [of c "run ops (RequestInterrupt c s)"]
    is_pending_keeps_run [of c "RequestInterrupt c s" ops] is_pending_RequestInterrupt [of c s]
  by (simp add: RequestInterrupt_twice RequestInterrupt_flags)

theorem request_interrupt_idempotent_witness:
  "\<not> clears GC_REQUEST (Request PREEMPT :: 64 word guard_op)
   \<and> \<not> clears GC_REQUEST (Clear PREEMPT :: 64 word guard_op)
   \<and> \<not> clears GC_REQUEST (SetLimit (0x7ffe0000 :: 64 word))
   \<and> interrupt_flags (RequestInterrupt GC_REQUEST
        (run [Request PREEMPT, Clear PREEMPT, SetLimit 0x7ffe0000]
           (RequestInterrupt GC_REQUEST idle_guard)))
       = interrupt_flags (run [Request PREEMPT, Clear PREEMPT, SetLimit 0x7ffe0000]
           (RequestInterrupt GC_REQUEST idle_guard))
   \<and> interrupt_flags (RequestInterrupt GC_REQUEST (RequestInterrupt GC_REQUEST idle_guard))
       = 0x20"
proof -
  have "interrupt_flags (RequestInterrupt GC_REQUEST idle_guard) = 0x20"
    by (simp add: RequestInterrupt_flags idle_guard_def)
  then show ?thesis
    using request_interrupt_idempotent
            [of GC_REQUEST idle_guard "[Request PREEMPT, Clear PREEMPT, SetLimit 0x7ffe0000]"]
    by simp
qed

text \<open>
  C5. The interrupt causes are exactly the ten enumerators of \<open>InterruptFlag\<close>; the flag
  of each is the single bit \<open>1 << i\<close> for its position \<open>i\<close> from 0 to 9; the flags of
  two distinct causes share no bit; and a set of causes packed into one \<open>int\<close> holds the
  bit of a cause exactly when the cause is in the set, so no two causes collide.
\<close>

theorem interrupt_flags_distinct_bits:
  "(UNIV :: InterruptFlag set) = set all_flags
   \<and> distinct all_flags \<and> length all_flags = 10
   \<and> map flag_value all_flags = map (\<lambda>i. push_bit i 1) [0..<10]
   \<and> (c \<noteq> d \<longrightarrow> flag_value c AND flag_value d = 0)
   \<and> ((flags_of cs AND flag_value c \<noteq> 0) = (c \<in> set cs))"
proof -
  have "(UNIV :: InterruptFlag set) = set all_flags"
  proof -
    have "x \<in> set all_flags" for x
      by (cases x) (simp_all add: all_flags_def)
    then show ?thesis by auto
  qed
  moreover have "distinct all_flags" and "length all_flags = 10"
    by (simp_all add: all_flags_def)
  moreover have "map flag_value all_flags = map (\<lambda>i. push_bit i 1) [0..<10]"
    by (simp add: all_flags_def upt_rec)
  moreover have "c \<noteq> d \<longrightarrow> flag_value c AND flag_value d = 0"
    by (simp add: flag_value_and)
  ultimately show ?thesis
    using flags_of_member [of cs c] by simp
qed

theorem interrupt_flags_distinct_bits_witness:
  "GC_REQUEST \<noteq> API_INTERRUPT
   \<and> flag_value GC_REQUEST AND flag_value API_INTERRUPT = 0
   \<and> flags_of [PREEMPT, GC_REQUEST] AND flag_value GC_REQUEST \<noteq> 0
   \<and> GC_REQUEST \<in> set [PREEMPT, GC_REQUEST]"
  using interrupt_flags_distinct_bits [of GC_REQUEST API_INTERRUPT "[PREEMPT, GC_REQUEST]"]
  by simp

text \<open>
  C7. A scope that declares a \<open>LockGuard\<close> on mutex \<open>m\<close> calls \<open>Lock\<close> on \<open>m\<close> once
  before its body and \<open>Unlock\<close> on \<open>m\<close> once after it, and leaves the way the body
  was left (normally, by a return, by an exception) unchanged. When the body makes no
  call on \<open>m\<close> itself, the scope adds exactly one \<open>Lock\<close> and one \<open>Unlock\<close> of \<open>m\<close>.
\<close>

theorem LockGuard_pairs_lock_with_unlock:
  "exec (Guarded m body) tr
     = (fst (exec body []), tr @ [Lock m] @ snd (exec body []) @ [Unlock m])
   \<and> (\<not> touches m body \<longrightarrow>
        count_list (snd (exec (Guarded m body) tr)) (Lock m) = count_list tr (Lock m) + 1
      \<and> count_list (snd (exec (Guarded m body) tr)) (Unlock m) = count_list tr (Unlock m) + 1)"
  using untouched_counts [of m body] by (simp add: guarded_exec del: exec.simps)

theorem LockGuard_pairs_lock_with_unlock_witness:
  "\<not> touches (1::nat) (Seq (Do (Lock 2)) (Seq Throw (Do (Unlock 2))))
   \<and> exec (Guarded (1::nat) (Seq (Do (Lock 2)) (Seq Throw (Do (Unlock 2))))) []
       = (Raised, [Lock 1, Lock 2, Unlock 1])
   \<and> count_list (snd (exec (Guarded (1::nat) (Seq (Do (Lock 2)) (Seq Throw (Do (Unlock 2))))) []))
        (Unlock 1) = 1"
  using LockGuard_pairs_lock_with_unlock
          [of "1::nat" "Seq (Do (Lock 2)) (Seq Throw (Do (Unlock 2)))" "[]"]
  by simp

text \<open>
  C8. The API request stores the given callback and data and sets the \<open>API_INTERRUPT\<close>
  bit. The record holds one pair: a second request before the first is handled gives
  the record that the second request alone gives, so the first pair is lost.
\<close>

theorem api_interrupt_last_writer_wins:
  "interrupt_callback (RequestInterrupt_callback cb d s) = cb
   \<and> interrupt_callback_data (RequestInterrupt_callback cb d s) = d
   \<and> interrupt_flags (RequestInterrupt_callback cb d s)
       = interrupt_flags s OR flag_value API_INTERRUPT
   \<and> RequestInterrupt_callback cb2 d2 (RequestInterrupt_callback cb d s)
       = RequestInterrupt_callback cb2 d2 s"
  by (simp add: RequestInterrupt_callback_def RequestInterrupt_def set_interrupt_limits_def
      should_postpone_interrupts_def or.assoc)

text \<open>
  C9. \<open>has_pending_interrupts\<close> asserts that interrupts are not being postponed: the
  assertion fails exactly in a checking build with \<open>postpone_interrupts_nesting_ > 0\<close>.
  With \<open>postpone_interrupts_nesting_ == 0\<close> it cannot fail, and the function returns
  whether \<open>interrupt_flags_\<close> is not zero.
\<close>

theorem has_pending_interrupts_precondition:
  "(postpone_interrupts_nesting s = 0 \<longrightarrow>
      has_pending_interrupts dbg s = Inr (interrupt_flags s \<noteq> 0))
   \<and> ((has_pending_interrupts dbg s = Inl AssertionFailed)
        = (dbg \<and> should_postpone_interrupts s))
   \<and> ((\<exists>b. has_pending_interrupts dbg s = Inr b)
        = (\<not> (dbg \<and> should_postpone_interrupts s)))"
  by (auto simp: has_pending_interrupts_def ASSERT_def should_postpone_interrupts_def)

theorem has_pending_interrupts_precondition_witness:
  "postpone_interrupts_nesting (idle_guard\<lparr>interrupt_flags := flag_value GC_REQUEST\<rparr>) = 0
   \<and> has_pending_interrupts True (idle_guard\<lparr>interrupt_flags := flag_value GC_REQUEST\<rparr>)
       = Inr True
   \<and> has_pending_interrupts True idle_guard = Inr False"
  using has_pending_interrupts_precondition
          [of "idle_guard\<lparr>interrupt_flags := flag_value GC_REQUEST\<rparr>" True]
        has_pending_interrupts_precondition [of idle_guard True]
  by (simp add: idle_guard_def)

end
